theory Spec2Isabelle
  imports Complex_Main "HOL-Library.Sublist" "HOL-Library.AList"
begin

section \<open>Python strings\<close>

text \<open>
  Python's \<open>str\<close> is modelled as \<^typ>\<open>string\<close>: a list of characters whose code points
  lie below 256. Integers are Python's unbounded \<open>int\<close>, modelled as \<^typ>\<open>int\<close>.
\<close>

text \<open>The exceptions the model tells apart; \<open>Exception\<close> stands for any other one.\<close>

datatype py_error = ValueError | IndexError | TypeError | Exception

text \<open>\<open>s[a:b]\<close>: a negative index counts from the end, both indices are clamped.\<close>

definition adjust_index :: "nat \<Rightarrow> int \<Rightarrow> nat" where
  "adjust_index n i = (if i < 0 then nat (max (i + int n) 0) else min (nat i) n)"

definition py_slice :: "'a list \<Rightarrow> int \<Rightarrow> int \<Rightarrow> 'a list" where
  "py_slice xs a b =
     (let s = adjust_index (length xs) a; e = adjust_index (length xs) b
      in take (e - s) (drop s xs))"

text \<open>\<open>s[a:]\<close>\<close>

definition py_slice_from :: "'a list \<Rightarrow> int \<Rightarrow> 'a list" where
  "py_slice_from xs a = drop (adjust_index (length xs) a) xs"

text \<open>\<open>str.isspace\<close> on a single character, for code points below 256.\<close>

definition is_space :: "char \<Rightarrow> bool" where
  "is_space c = (of_char c \<in> {9, 10, 11, 12, 13, 28, 29, 30, 31, 32, 133, 160 :: nat})"

text \<open>\<open>str.strip()\<close>: leading and trailing whitespace removed.\<close>

definition lstrip :: "string \<Rightarrow> string" where
  "lstrip s = dropWhile is_space s"

definition rstrip :: "string \<Rightarrow> string" where
  "rstrip s = rev (dropWhile is_space (rev s))"

definition strip :: "string \<Rightarrow> string" where
  "strip s = rstrip (lstrip s)"

text \<open>
  \<open>s.rfind(sub)\<close>: the highest index at which \<open>sub\<close> occurs in \<open>s\<close>, or \<open>-1\<close>.
  The scan runs left to right and remembers the last index where \<open>sub\<close> is a prefix of
  the rest.
\<close>

primrec rfind_from :: "string \<Rightarrow> string \<Rightarrow> nat \<Rightarrow> int \<Rightarrow> int" where
  "rfind_from [] sub i found = (if sub = [] then int i else found)"
| "rfind_from (c # cs) sub i found =
     rfind_from cs sub (Suc i) (if prefix sub (c # cs) then int i else found)"

definition rfind :: "string \<Rightarrow> string \<Rightarrow> int" where
  "rfind s sub = rfind_from s sub 0 (- 1)"

text \<open>\<open>sub in s\<close>\<close>

primrec py_in :: "string \<Rightarrow> string \<Rightarrow> bool" where
  "py_in sub [] = (sub = [])"
| "py_in sub (c # cs) = (prefix sub (c # cs) \<or> py_in sub cs)"

text \<open>\<open>str.lower()\<close>, for code points below 256: \<open>A\<close>--\<open>Z\<close> and the Latin-1 capitals.\<close>

definition lower_char :: "char \<Rightarrow> char" where
  "lower_char c =
     (let n = (of_char c :: nat)
      in if (65 \<le> n \<and> n \<le> 90) \<or> (192 \<le> n \<and> n \<le> 222 \<and> n \<noteq> 215)
         then char_of (n + 32) else c)"

definition lower :: "string \<Rightarrow> string" where
  "lower s = map lower_char s"

text \<open>\<open>sep.join(parts)\<close>\<close>

fun join :: "string \<Rightarrow> string list \<Rightarrow> string" where
  "join sep [] = []"
| "join sep [p] = p"
| "join sep (p # q # ps) = p @ sep @ join sep (q # ps)"

section \<open>TextProcessingAgent\<close>

record TextProcessingAgent =
  chunk_size :: int
  overlap :: int

text \<open>\<open>TextProcessingAgent()\<close>: the constructor's defaults.\<close>

definition TextProcessingAgent_default :: TextProcessingAgent where
  "TextProcessingAgent_default = \<lparr>chunk_size = 2000, overlap = 200\<rparr>"

datatype break_kind = Paragraph | Sentence | Line

text \<open>
  The dict literal of \<open>create_chunks\<close>: keys are the three \<open>rfind\<close> offsets in the window,
  a later entry with an equal key replaces the value of the earlier one.
\<close>

definition break_candidates :: "string \<Rightarrow> (int \<times> break_kind) list" where
  "break_candidates window =
     AList.update (rfind window [CHR 10]) Line
       (AList.update (rfind window ''. '') Sentence
          (AList.update (rfind window [CHR 10, CHR 10]) Paragraph []))"

text \<open>
  \<open>max(point for point in break_candidates.keys() if point != -1)\<close>: Python's \<open>max\<close> of an
  empty iterable raises \<open>ValueError\<close>.
\<close>

definition py_max :: "int list \<Rightarrow> py_error + int" where
  "py_max ps = (case ps of [] \<Rightarrow> Inl ValueError | p # qs \<Rightarrow> Inr (fold max qs p))"

definition break_point :: "string \<Rightarrow> py_error + int" where
  "break_point window = py_max (filter (\<lambda>point. point \<noteq> - 1) (map fst (break_candidates window)))"

text \<open>The value of \<open>end\<close> after the \<open>if end < len(text)\<close> block of one iteration.\<close>

definition window_end :: "TextProcessingAgent \<Rightarrow> string \<Rightarrow> int \<Rightarrow> py_error + int" where
  "window_end self text start =
     (let end = start + chunk_size self
      in if end < int (length text)
         then (case break_point (py_slice text start end) of
                 Inl e \<Rightarrow> Inl e
               | Inr bp \<Rightarrow> Inr (if bp \<noteq> - 1 then start + bp + 1 else end))
         else Inr end)"

text \<open>
  The \<open>while start < len(text)\<close> loop. The result is \<open>None\<close> when the loop never exits,
  \<open>Some (Inl e)\<close> when it raises \<open>e\<close>, \<open>Some (Inr chunks)\<close> when it returns.
\<close>

partial_function (option) chunk_loop ::
  "TextProcessingAgent \<Rightarrow> string \<Rightarrow> int \<Rightarrow> string list \<Rightarrow> (py_error + string list) option" where
  "chunk_loop self text start chunks =
     (if start < int (length text)
      then (case window_end self text start of
              Inl e \<Rightarrow> Some (Inl e)
            | Inr end \<Rightarrow>
                let chunk = strip (py_slice text start end)
                in chunk_loop self text (end - overlap self)
                     (if chunk \<noteq> [] then chunks @ [chunk] else chunks))
      else Some (Inr chunks))"

definition create_chunks :: "TextProcessingAgent \<Rightarrow> string \<Rightarrow> (py_error + string list) option" where
  "create_chunks self text = chunk_loop self text 0 []"

declare chunk_loop.simps [code]

text \<open>
  The iteration at \<open>start\<close> makes progress when the next value of \<open>start\<close>, that is
  \<open>end - overlap\<close>, lies beyond the current one.
\<close>

definition window_advances :: "TextProcessingAgent \<Rightarrow> string \<Rightarrow> int \<Rightarrow> bool" where
  "window_advances self text start =
     (case window_end self text start of Inl e \<Rightarrow> True | Inr end \<Rightarrow> start < end - overlap self)"



section \<open>Prompts\<close>

text \<open>The templates of \<open>prompts.py\<close>, each applied to its \<open>format\<close> arguments.\<close>

definition QA_GENERATION :: "string \<Rightarrow> string \<Rightarrow> string" where
  "QA_GENERATION text_content context_instruction =
     ''You are a specialized AI trained to create high-quality question-answer pairs for training data.\<newline>\<newline>'' @
     ''Content to process:\<newline>'' @
     text_content @
     ''\<newline>\<newline>'' @
     ''Instructions:\<newline>'' @
     ''- Create alot of possible diverse question-answer pairs from the given content\<newline>'' @
     ''- Make sure to touch every part of the topic so that you don't miss any questions.\<newline>'' @
     ''- Questions should test different aspects of understanding\<newline>'' @
     ''- Ensure questions are clear and unambiguous\<newline>'' @
     ''- Answers should be comprehensive but concise\<newline>'' @
     ''- Focus on important information and key concepts\<newline>'' @
     ''- Avoid redundant or trivial questions\<newline>'' @
     context_instruction @
     ''\<newline>\<newline>'' @
     ''Output Format Requirements:\<newline>'' @
     ''- Each pair MUST start with 'Q1:', 'Q2:', or 'Q3:' for questions\<newline>'' @
     ''- Each answer MUST start with 'A1:', 'A2:', or 'A3:' respectively\<newline>'' @
     ''- Questions and answers MUST alternate (Q1, A1, Q2, A2, Q3, A3)\<newline>'' @
     ''- Questions and answers MUST NOT be empty\<newline>'' @
     ''- DO NOT include any additional formatting or text\<newline>\<newline>'' @
     ''Example Format:\<newline>'' @
     ''Q1: What is the main concept discussed in the text?\<newline>'' @
     ''A1: The main concept is...\<newline>'' @
     ''Q2: How does the text explain...?\<newline>'' @
     ''A2: The text explains this by...\<newline>'' @
     ''Q3: What are the key implications of...?\<newline>'' @
     ''A3: The key implications are...''"

definition CONTEXT_INSTRUCTION :: "string \<Rightarrow> string" where
  "CONTEXT_INSTRUCTION context =
     ''\<newline>'' @
     ''Previous Context:\<newline>'' @
     context @
     ''\<newline>'' @
     ''Consider this context while generating questions to maintain continuity and avoid repetition.''"

definition CHUNK_SUMMARY :: "string \<Rightarrow> string" where
  "CHUNK_SUMMARY chunk_text =
     ''Create a brief summary of the following content that captures the key points and context. This will be used to maintain continuity between chunks.\<newline>\<newline>'' @
     ''Content:\<newline>'' @
     chunk_text @
     ''\<newline>\<newline>'' @
     ''Keep the summary focused on main ideas that might be relevant for the next section.''"

definition ERROR_RECOVERY :: "string \<Rightarrow> string \<Rightarrow> string" where
  "ERROR_RECOVERY text_content context_instruction =
     ''The previous attempt to generate QA pairs encountered an error. Please try again with the following content, focusing on simpler, more straightforward questions:\<newline>\<newline>'' @
     ''Content:\<newline>'' @
     text_content @
     ''\<newline>\<newline>'' @
     context_instruction"

definition VALIDATION :: "string \<Rightarrow> string" where
  "VALIDATION qa_pairs =
     ''Please validate the following question-answer pairs for quality and relevance:\<newline>\<newline>'' @
     qa_pairs @
     ''\<newline>\<newline>'' @
     ''For each pair, verify:\<newline>'' @
     ''1. Question clarity and specificity\<newline>'' @
     ''2. Answer accuracy and completeness\<newline>'' @
     ''3. Relevance to the source material\<newline>\<newline>'' @
     ''Provide feedback in the following format:\<newline>'' @
     ''VALID: [true/false]\<newline>'' @
     ''FEEDBACK: [specific issues if any]''"

section \<open>The completion backend\<close>

text \<open>
  \<open>client.chat.completions.create(...)\<close> followed by \<open>response.choices[0].message.content\<close>
  is a request to an external service. The service is a parameter: a function from the
  prompt and the state of the outside world to the new state and either the returned
  text or \<open>None\<close>, which stands for any exception raised by the request. A response
  that arrives carries a text (a response whose content is Python's \<open>None\<close> is not
  modelled). The client keeps a record of the requests issued, with their outcomes.
\<close>

type_synonym 'w backend = "string \<Rightarrow> 'w \<Rightarrow> string option \<times> 'w"

record 'w Groq =
  requests :: "(string \<times> string option) list"
  world :: 'w

definition chat_completions_create :: "'w backend \<Rightarrow> string \<Rightarrow> 'w Groq \<Rightarrow> string option \<times> 'w Groq" where
  "chat_completions_create api prompt client =
     (case api prompt (world client) of
        (response, w) \<Rightarrow>
          (response, client\<lparr>requests := requests client @ [(prompt, response)], world := w\<rparr>))"

section \<open>QAPair and the response parser\<close>

record QAPair =
  question :: string
  answer :: string
  confidence :: real
  metadata :: "(string \<times> string) list option"

text \<open>\<open>QAPair(question=..., answer=..., metadata=...)\<close>: the confidence defaults to 1.0.\<close>

definition new_QAPair :: "string \<Rightarrow> string \<Rightarrow> (string \<times> string) list \<Rightarrow> QAPair" where
  "new_QAPair q a m = \<lparr>question = q, answer = a, confidence = 1.0, metadata = Some m\<rparr>"

text \<open>\<open>s.split(sep)\<close> for a one-character separator.\<close>

primrec split_acc :: "char \<Rightarrow> string \<Rightarrow> string \<Rightarrow> string list" where
  "split_acc sep [] cur = [cur]"
| "split_acc sep (c # cs) cur =
     (if c = sep then cur # split_acc sep cs [] else split_acc sep cs (cur @ [c]))"

definition split :: "string \<Rightarrow> char \<Rightarrow> string list" where
  "split s sep = split_acc sep s []"

text \<open>\<open>line.startswith((p1, p2, ...))\<close>\<close>

definition startswith :: "string \<Rightarrow> string list \<Rightarrow> bool" where
  "startswith s prefs = list_ex (\<lambda>p. prefix p s) prefs"

text \<open>\<open>line.split(':', 1)[1]\<close>: \<open>IndexError\<close> when the line has no colon.\<close>

definition split_colon_1 :: "string \<Rightarrow> py_error + string" where
  "split_colon_1 s =
     (case dropWhile (\<lambda>c. c \<noteq> CHR '':'') s of
        [] \<Rightarrow> Inl IndexError
      | _ # rest \<Rightarrow> Inr rest)"

record parser_state =
  qa_pairs :: "QAPair list"
  current_question :: "string option"
  current_answer :: "string option"

text \<open>One iteration of \<open>for line in lines\<close> in \<open>_parse_qa_response\<close>.\<close>

definition parse_line :: "string \<Rightarrow> parser_state \<Rightarrow> py_error + parser_state" where
  "parse_line line st =
     (if line = [] then Inr st
      else if startswith line [''Q1:'', ''Q2:'', ''Q3:'', ''Q:'', ''Question:'']
      then (let st1 = (case (current_question st, current_answer st) of
                         (Some q, Some a) \<Rightarrow>
                           st\<lparr>qa_pairs := qa_pairs st @
                               [new_QAPair q a [(''source_type'', ''groq_llama2'')]]\<rparr>
                       | _ \<Rightarrow> st)
            in case split_colon_1 line of
                 Inl e \<Rightarrow> Inl e
               | Inr rest \<Rightarrow>
                   Inr (st1\<lparr>current_question := Some (strip rest), current_answer := None\<rparr>))
      else if startswith line [''A1:'', ''A2:'', ''A3:'', ''A:'', ''Answer:'']
      then (case split_colon_1 line of
              Inl e \<Rightarrow> Inl e
            | Inr rest \<Rightarrow>
                (let st1 = st\<lparr>current_answer := Some (strip rest)\<rparr>
                 in case (current_question st1, current_answer st1) of
                      (Some q, Some a) \<Rightarrow>
                        Inr (st1\<lparr>qa_pairs := qa_pairs st1 @
                                  [new_QAPair q a [(''source_type'', ''groq_llama2'')]],
                                current_question := None, current_answer := None\<rparr>)
                    | _ \<Rightarrow> Inr st1))
      else Inr st)"

fun parse_lines :: "string list \<Rightarrow> parser_state \<Rightarrow> py_error + parser_state" where
  "parse_lines [] st = Inr st"
| "parse_lines (line # rest) st =
     (case parse_line line st of Inl e \<Rightarrow> Inl e | Inr st1 \<Rightarrow> parse_lines rest st1)"

definition parse_qa_response :: "string \<Rightarrow> py_error + QAPair list" where
  "parse_qa_response response_text =
     (let lines = map strip (filter (\<lambda>line. strip line \<noteq> []) (split (strip response_text) (CHR 10)))
      in case parse_lines lines \<lparr>qa_pairs = [], current_question = None, current_answer = None\<rparr> of
           Inl e \<Rightarrow> Inl e
         | Inr st \<Rightarrow>
             (let pairs = (case (current_question st, current_answer st) of
                             (Some q, Some a) \<Rightarrow>
                               qa_pairs st @
                                 [new_QAPair q a [(''source_type'', ''llama-3.1-70b-versatile'')]]
                           | _ \<Rightarrow> qa_pairs st)
              in Inr (filter (\<lambda>pair. question pair \<noteq> [] \<and> answer pair \<noteq> [] \<and>
                                     length (strip (question pair)) > 0 \<and>
                                     length (strip (answer pair)) > 0) pairs)))"

section \<open>QAGenerationAgent\<close>

text \<open>
  The \<open>for attempt in range(retry_count + 1)\<close> loop of \<open>generate_qa_pairs\<close>, over the
  attempts still to run. An exception of the request or of the parser is caught by the
  handler. A loop that runs out of attempts falls off the end of the function, which
  returns Python's \<open>None\<close>: the result \<open>None\<close> here.
\<close>

fun generate_attempts ::
  "'w backend \<Rightarrow> string \<Rightarrow> string \<Rightarrow> int \<Rightarrow> string \<Rightarrow> nat list \<Rightarrow> 'w Groq \<Rightarrow>
     QAPair list option \<times> 'w Groq" where
  "generate_attempts api chunk context_instruction retry_count prompt [] client = (None, client)"
| "generate_attempts api chunk context_instruction retry_count prompt (attempt # rest) client =
     (case chat_completions_create api prompt client of
        (response, client1) \<Rightarrow>
          (case (case response of None \<Rightarrow> Inl Exception | Some content \<Rightarrow> parse_qa_response content) of
             Inr pairs \<Rightarrow> (Some pairs, client1)
           | Inl e \<Rightarrow>
               if int attempt = retry_count then (Some [], client1)
               else generate_attempts api chunk context_instruction retry_count
                      (ERROR_RECOVERY chunk context_instruction) rest client1))"

text \<open>
  \<open>Prompts.CONTEXT_INSTRUCTION.format(context=context) if context else ""\<close>: \<open>None\<close> and
  the empty string are both false.
\<close>

definition context_instruction_of :: "string option \<Rightarrow> string" where
  "context_instruction_of context =
     (case context of
        None \<Rightarrow> []
      | Some c \<Rightarrow> if c \<noteq> [] then CONTEXT_INSTRUCTION c else [])"

definition generate_qa_pairs ::
  "'w backend \<Rightarrow> string \<Rightarrow> string option \<Rightarrow> int \<Rightarrow> 'w Groq \<Rightarrow> QAPair list option \<times> 'w Groq" where
  "generate_qa_pairs api chunk context retry_count client =
     (let context_instruction = context_instruction_of context;
          prompt = QA_GENERATION chunk context_instruction
      in generate_attempts api chunk context_instruction retry_count prompt
           [0..<nat (retry_count + 1)] client)"

section \<open>ValidationAgent\<close>

definition apply_validation_feedback :: "QAPair list \<Rightarrow> string \<Rightarrow> QAPair list" where
  "apply_validation_feedback pairs feedback =
     map (\<lambda>pair. if py_in ''VALID: true'' (lower feedback)
                 then pair\<lparr>confidence := 1.0\<rparr>
                 else pair\<lparr>confidence := 0.5\<rparr>) pairs"

definition validate_qa_pairs :: "'w backend \<Rightarrow> QAPair list \<Rightarrow> 'w Groq \<Rightarrow> QAPair list \<times> 'w Groq" where
  "validate_qa_pairs api pairs client =
     (let qa_text = join [CHR 10]
            (map (\<lambda>pair. ''Q: '' @ question pair @ ''\<newline>A: '' @ answer pair) pairs);
          prompt = VALIDATION qa_text
      in case chat_completions_create api prompt client of
           (Some feedback, client1) \<Rightarrow> (apply_validation_feedback pairs feedback, client1)
         | (None, client1) \<Rightarrow> (pairs, client1))"

section \<open>ContextManager\<close>

record ContextManager =
  context_history :: "string list"

text \<open>\<open>ContextManager(api_key)\<close>: the history starts empty.\<close>

definition new_ContextManager :: ContextManager where
  "new_ContextManager = \<lparr>context_history = []\<rparr>"

definition update_context ::
  "'w backend \<Rightarrow> string \<Rightarrow> ContextManager \<times> 'w Groq \<Rightarrow> string \<times> ContextManager \<times> 'w Groq" where
  "update_context api chunk st =
     (case st of (self, client) \<Rightarrow>
        (case chat_completions_create api (CHUNK_SUMMARY chunk) client of
           (Some summary, client1) \<Rightarrow>
             (let appended = context_history self @ [summary];
                  history = (if length appended > 3 then tl appended else appended)
              in (join '' '' history, self\<lparr>context_history := history\<rparr>, client1))
         | (None, client1) \<Rightarrow> (py_slice_from chunk (- 500), self, client1)))"



section \<open>DatasetGenerator\<close>

record validation_stats =
  high_confidence :: nat
  low_confidence :: nat

record stats =
  total_chunks :: nat
  total_qa_pairs :: nat
  failed_chunks :: nat
  validation_stats :: validation_stats

text \<open>The records written by \<open>self.logger\<close> inside the chunk loop.\<close>

datatype log_record = Processing_chunk nat nat | Error_processing_chunk nat py_error

definition is_processing :: "log_record \<Rightarrow> bool" where
  "is_processing r = (case r of Processing_chunk i n \<Rightarrow> True | Error_processing_chunk i e \<Rightarrow> False)"

text \<open>
  The attributes of a \<open>DatasetGenerator\<close> that \<open>process_document\<close> reads: the text
  processor and the three agents, each agent given by the method the loop calls. A method
  acts on the state \<open>'w\<close> of the agents and of the outside world and either returns or
  raises.
\<close>

record 'w DatasetGenerator =
  text_processor :: TextProcessingAgent
  qa_generator :: "string \<Rightarrow> string option \<Rightarrow> 'w \<Rightarrow> (py_error + QAPair list) \<times> 'w"
  validator :: "QAPair list \<Rightarrow> 'w \<Rightarrow> (py_error + QAPair list) \<times> 'w"
  context_manager :: "string \<Rightarrow> 'w \<Rightarrow> (py_error + string) \<times> 'w"

text \<open>
  What \<open>process_document\<close> changes: \<open>self.stats\<close>, the log, the state of the agents, the
  locals \<open>all_qa_pairs\<close> and \<open>context\<close> (here \<open>current_context\<close>), and the pairs handed to \<open>save_qa_pairs\<close>.
\<close>

record 'w run_state =
  stats :: stats
  logger :: "log_record list"
  agents :: 'w
  all_qa_pairs :: "QAPair list"
  current_context :: "string option"
  saved :: "QAPair list option"

text \<open>The "Update statistics" block of the loop body.\<close>

definition count_confidence :: "QAPair \<Rightarrow> validation_stats \<Rightarrow> validation_stats" where
  "count_confidence pair vs =
     (if confidence pair > 0.8 then vs\<lparr>high_confidence := high_confidence vs + 1\<rparr>
      else vs\<lparr>low_confidence := low_confidence vs + 1\<rparr>)"

definition update_statistics :: "QAPair list \<Rightarrow> stats \<Rightarrow> stats" where
  "update_statistics validated_pairs s =
     s\<lparr>total_qa_pairs := total_qa_pairs s + length validated_pairs,
       validation_stats := fold count_confidence validated_pairs (validation_stats s)\<rparr>"

text \<open>
  The body of the inner \<open>try\<close>: \<open>Some e\<close> when the exception \<open>e\<close> escapes it, with the state
  as the statements before the raise left it.
\<close>

definition try_chunk :: "'w DatasetGenerator \<Rightarrow> string \<Rightarrow> 'w run_state \<Rightarrow> py_error option \<times> 'w run_state" where
  "try_chunk self chunk st =
     (case qa_generator self chunk (current_context st) (agents st) of
        (Inl e, w1) \<Rightarrow> (Some e, st\<lparr>agents := w1\<rparr>)
      | (Inr pairs, w1) \<Rightarrow>
          (case validator self pairs w1 of
             (Inl e, w2) \<Rightarrow> (Some e, st\<lparr>agents := w2\<rparr>)
           | (Inr validated_pairs, w2) \<Rightarrow>
               (let st1 = st\<lparr>stats := update_statistics validated_pairs (stats st),
                              all_qa_pairs := all_qa_pairs st @ validated_pairs\<rparr>
                in case context_manager self chunk w2 of
                     (Inl e, w3) \<Rightarrow> (Some e, st1\<lparr>agents := w3\<rparr>)
                   | (Inr c, w3) \<Rightarrow> (None, st1\<lparr>agents := w3, current_context := Some c\<rparr>))))"

text \<open>One iteration of \<open>for i, chunk in enumerate(chunks, 1)\<close>, with its \<open>except\<close> handler.\<close>

definition process_chunk :: "'w DatasetGenerator \<Rightarrow> nat \<Rightarrow> nat \<times> string \<Rightarrow> 'w run_state \<Rightarrow> 'w run_state" where
  "process_chunk self n ic st =
     (case ic of (i, chunk) \<Rightarrow>
        (case try_chunk self chunk (st\<lparr>logger := logger st @ [Processing_chunk i n]\<rparr>) of
           (None, st1) \<Rightarrow> st1
         | (Some e, st1) \<Rightarrow>
             st1\<lparr>logger := logger st1 @ [Error_processing_chunk i e],
                 stats := (stats st1)\<lparr>failed_chunks := failed_chunks (stats st1) + 1\<rparr>\<rparr>))"

definition process_chunks :: "'w DatasetGenerator \<Rightarrow> nat \<Rightarrow> (nat \<times> string) list \<Rightarrow> 'w run_state \<Rightarrow> 'w run_state" where
  "process_chunks self n ics st = fold (process_chunk self n) ics st"

datatype status = Successfully_processed_document stats | Error_processing_document py_error

text \<open>
  \<open>process_document\<close>. The argument \<open>extracted\<close> is the outcome of reading the input file
  (\<open>extract_text_from_pdf\<close> or \<open>f.read()\<close>): the text, or the exception raised. The result is
  \<open>None\<close> when the call never returns.
\<close>

definition process_document ::
  "'w DatasetGenerator \<Rightarrow> py_error + string \<Rightarrow> int \<Rightarrow> int \<Rightarrow> 'w run_state \<Rightarrow> (status \<times> 'w run_state) option" where
  "process_document self extracted chunk_size_arg overlap_arg st =
     (case extracted of
        Inl e \<Rightarrow> Some (Error_processing_document e, st)
      | Inr text \<Rightarrow>
          (case create_chunks (text_processor self) text of
             None \<Rightarrow> None
           | Some (Inl e) \<Rightarrow> Some (Error_processing_document e, st)
           | Some (Inr chunks) \<Rightarrow>
               (let st1 = st\<lparr>stats := (stats st)\<lparr>total_chunks := length chunks\<rparr>,
                              all_qa_pairs := [], current_context := None\<rparr>;
                    st2 = process_chunks self (length chunks) (enumerate 1 chunks) st1;
                    st3 = st2\<lparr>saved := Some (all_qa_pairs st2)\<rparr>
                in Some (Successfully_processed_document (stats st3), st3))))"

text \<open>
  \<open>DatasetGenerator(api_key)\<close>: the text processor is built with its default sizes, the
  agents are the three classes of \<open>agents.py\<close> over one backend. \<open>generate_qa_pairs\<close> is
  called with its default \<open>retry_count\<close> of 2; were it to return Python's \<open>None\<close>, the
  iteration over \<open>qa_pairs\<close> in \<open>validate_qa_pairs\<close> would raise \<open>TypeError\<close>.
\<close>

definition new_DatasetGenerator :: "'w backend \<Rightarrow> (ContextManager \<times> 'w Groq) DatasetGenerator" where
  "new_DatasetGenerator api =
     \<lparr>text_processor = TextProcessingAgent_default,
      qa_generator = (\<lambda>chunk ctx (cm, client).
         case generate_qa_pairs api chunk ctx 2 client of
           (Some pairs, client1) \<Rightarrow> (Inr pairs, (cm, client1))
         | (None, client1) \<Rightarrow> (Inl TypeError, (cm, client1))),
      validator = (\<lambda>pairs (cm, client).
         case validate_qa_pairs api pairs client of
           (validated, client1) \<Rightarrow> (Inr validated, (cm, client1))),
      context_manager = (\<lambda>chunk (cm, client).
         case update_context api chunk (cm, client) of
           (c, cm1, client1) \<Rightarrow> (Inr c, (cm1, client1)))\<rparr>"

definition new_run_state :: "'w \<Rightarrow> (ContextManager \<times> 'w Groq) run_state" where
  "new_run_state w =
     \<lparr>stats = \<lparr>total_chunks = 0, total_qa_pairs = 0, failed_chunks = 0,
               validation_stats = \<lparr>high_confidence = 0, low_confidence = 0\<rparr>\<rparr>,
      logger = [],
      agents = (new_ContextManager, \<lparr>requests = [], world = w\<rparr>),
      all_qa_pairs = [], current_context = None, saved = None\<rparr>"

section \<open>Properties of the string operations\<close>

text \<open>
  \<open>rfind\<close> returns \<open>-1\<close> or an index at which the pattern occurs, and no occurrence lies
  to the right of it.
\<close>

lemma rfind_from_range:
  "rfind_from s sub i found = found \<or>
   (int i \<le> rfind_from s sub i found \<and> rfind_from s sub i found + int (length sub) \<le> int i + int (length s))"
proof (induction s arbitrary: i found)
  case Nil
  then show ?case by simp
next
  case (Cons c cs)
  show ?case
  proof (cases "prefix sub (c # cs)")
    case True
    then have "length sub \<le> length (c # cs)" by (rule prefix_length_le)
    with True Cons.IH [of "Suc i" "int i"] show ?thesis by auto
  next
    case False
    with Cons.IH [of "Suc i" found] show ?thesis by auto
  qed
qed

lemma rfind_range:
  "rfind s sub = - 1 \<or> (0 \<le> rfind s sub \<and> rfind s sub + int (length sub) \<le> int (length s))"
  using rfind_from_range [of s sub 0 "- 1"] by (simp add: rfind_def)

lemma rfind_from_occurs:
  "rfind_from s sub i found = found \<or>
   (\<exists>k \<le> length s. rfind_from s sub i found = int (i + k) \<and> prefix sub (drop k s))"
proof (induction s arbitrary: i found)
  case Nil
  then show ?case by simp
next
  case (Cons c cs)
  show ?case
  proof (cases "prefix sub (c # cs)")
    case True
    from Cons.IH [of "Suc i" "int i"] show ?thesis
    proof
      assume "rfind_from cs sub (Suc i) (int i) = int i"
      with True show ?thesis by (auto intro: exI [of _ 0])
    next
      assume "\<exists>k\<le>length cs. rfind_from cs sub (Suc i) (int i) = int (Suc i + k) \<and> prefix sub (drop k cs)"
      then obtain k where "k \<le> length cs" "rfind_from cs sub (Suc i) (int i) = int (Suc i + k)"
        "prefix sub (drop k cs)" by blast
      with True show ?thesis by (auto intro: exI [of _ "Suc k"])
    qed
  next
    case False
    from Cons.IH [of "Suc i" found] show ?thesis
    proof
      assume "rfind_from cs sub (Suc i) found = found"
      with False show ?thesis by simp
    next
      assume "\<exists>k\<le>length cs. rfind_from cs sub (Suc i) found = int (Suc i + k) \<and> prefix sub (drop k cs)"
      then obtain k where "k \<le> length cs" "rfind_from cs sub (Suc i) found = int (Suc i + k)"
        "prefix sub (drop k cs)" by blast
      with False show ?thesis by (auto intro: exI [of _ "Suc k"])
    qed
  qed
qed

lemma rfind_from_highest:
  "k \<le> length s \<Longrightarrow> prefix sub (drop k s) \<Longrightarrow> found < int i \<Longrightarrow> int (i + k) \<le> rfind_from s sub i found"
proof (induction s arbitrary: i found k)
  case Nil
  then show ?case by simp
next
  case (Cons c cs)
  show ?case
  proof (cases k)
    case 0
    with Cons.prems have p: "prefix sub (c # cs)" by simp
    from rfind_from_range [of cs sub "Suc i" "int i"] p 0 show ?thesis by auto
  next
    case (Suc j)
    with Cons.prems have "j \<le> length cs" "prefix sub (drop j cs)" by simp_all
    then have "int (Suc i + j) \<le> rfind_from cs sub (Suc i) (if prefix sub (c # cs) then int i else found)"
      using Cons.prems(3) by (intro Cons.IH) auto
    with Suc show ?thesis by simp
  qed
qed

lemma rfind_found:
  assumes "rfind s sub \<noteq> - 1"
  shows "prefix sub (drop (nat (rfind s sub)) s) \<and> 0 \<le> rfind s sub \<and> nat (rfind s sub) \<le> length s"
  using rfind_from_occurs [of s sub 0 "- 1"] assms by (auto simp: rfind_def)

lemma rfind_highest:
  "k \<le> length s \<Longrightarrow> prefix sub (drop k s) \<Longrightarrow> int k \<le> rfind s sub"
  using rfind_from_highest [of k s sub "- 1" 0] by (simp add: rfind_def)

lemma rfind_lt_length:
  "sub \<noteq> [] \<Longrightarrow> rfind s sub \<noteq> - 1 \<Longrightarrow> 0 \<le> rfind s sub \<and> rfind s sub < int (length s)"
  using rfind_range [of s sub] by (cases sub) auto

lemma rfind_Nil: "sub \<noteq> [] \<Longrightarrow> rfind [] sub = - 1"
  by (simp add: rfind_def)

lemma set_py_slice: "set (py_slice xs a b) \<subseteq> set xs"
  unfolding py_slice_def Let_def
  by (meson set_take_subset set_drop_subset subset_trans)


lemma rfind_absent:
  assumes "\<not> set sub \<subseteq> set s"
  shows "rfind s sub = - 1"
proof (rule ccontr)
  assume "rfind s sub \<noteq> - 1"
  then have "prefix sub (drop (nat (rfind s sub)) s)" by (simp add: rfind_found)
  then have "set sub \<subseteq> set (drop (nat (rfind s sub)) s)" by (rule set_mono_prefix)
  also have "\<dots> \<subseteq> set s" by (rule set_drop_subset)
  finally show False using assms by simp
qed


text \<open>A lower-cased string holds no capital letter, so no capital \<open>V\<close>.\<close>

lemma lower_char_not_upper: "\<not> (65 \<le> (of_char (lower_char c) :: nat) \<and> (of_char (lower_char c) :: nat) \<le> 90)"
  by (auto simp: lower_char_def Let_def)

lemma V_notin_lower: "CHR ''V'' \<notin> set (lower s)"
proof
  assume "CHR ''V'' \<in> set (lower s)"
  then obtain c where "lower_char c = CHR ''V''" by (auto simp: lower_def)
  then have "(of_char (lower_char c) :: nat) = 86" by simp
  with lower_char_not_upper [of c] show False by simp
qed

lemma py_in_sublist: "py_in sub s \<longleftrightarrow> sublist sub s"
  by (induction s) (auto simp: sublist_Cons_right)

lemma py_in_set: "py_in sub s \<Longrightarrow> set sub \<subseteq> set s"
  by (simp add: py_in_sublist set_mono_sublist)

lemma marker_never_in_lower: "\<not> py_in ''VALID: true'' (lower feedback)"
proof
  assume "py_in ''VALID: true'' (lower feedback)"
  then have "set ''VALID: true'' \<subseteq> set (lower feedback)" by (rule py_in_set)
  then have "CHR ''V'' \<in> set (lower feedback)" by simp
  with V_notin_lower show False by blast
qed

lemma apply_validation_feedback_half:
  "apply_validation_feedback pairs feedback = map (\<lambda>pair. pair\<lparr>confidence := 0.5\<rparr>) pairs"
  by (simp add: apply_validation_feedback_def marker_never_in_lower)


section \<open>Properties of the validator\<close>

text \<open>
  Claim C1 says that feedback containing \<open>valid: true\<close> in any letter case gives every pair
  of the batch confidence 1.0. The test in \<open>_apply_validation_feedback\<close> looks for the
  mixed-case literal \<open>VALID: true\<close> in the lower-cased feedback, where it cannot occur
  (\<open>apply_validation_feedback_half\<close>): on the feedback \<open>VALID: true\<close> the pair gets 0.5.
\<close>

theorem validator_valid_true_scores_half:
  "map confidence (fst (validate_qa_pairs (\<lambda>prompt w. (Some ''VALID: true\<newline>FEEDBACK: none'', w))
      [new_QAPair ''What is 2 + 2?'' ''4'' []] \<lparr>requests = [], world = ()\<rparr>)) = [0.5]"
  by (simp add: validate_qa_pairs_def chat_completions_create_def apply_validation_feedback_half new_QAPair_def)


section \<open>Properties of the chunker\<close>

lemma break_point_no_marker:
  assumes "CHR 10 \<notin> set window" and "CHR ''.'' \<notin> set window"
  shows "break_point window = Inl ValueError"
proof -
  have "rfind window [CHR 10] = - 1" "rfind window ''. '' = - 1" "rfind window [CHR 10, CHR 10] = - 1"
    using assms by (simp_all add: rfind_absent)
  then show ?thesis
    by (simp add: break_point_def break_candidates_def py_max_def)
qed

lemma create_chunks_no_marker:
  assumes "0 < chunk_size self" "chunk_size self < int (length t)"
    and "CHR 10 \<notin> set t" and "CHR ''.'' \<notin> set t"
  shows "create_chunks self t = Some (Inl ValueError)"
proof -
  let ?w = "py_slice t 0 (0 + chunk_size self)"
  have "CHR 10 \<notin> set ?w" "CHR ''.'' \<notin> set ?w"
    using assms(3,4) set_py_slice [of t 0 "0 + chunk_size self"] by auto
  then have "break_point ?w = Inl ValueError" by (rule break_point_no_marker)
  then have "window_end self t 0 = Inl ValueError"
    using assms(2) by (simp add: window_end_def)
  moreover have "0 < int (length t)" using assms(1,2) by linarith
  ultimately show ?thesis
    unfolding create_chunks_def by (subst chunk_loop.simps) simp
qed


text \<open>
  Claim C2 says that \<open>create_chunks\<close> never raises and keeps a window without boundary
  marker at its full length. With the default sizes, a text of 2001 letters \<open>a\<close> has a
  first window that does not reach the end of the text and holds no marker: \<open>max\<close> is
  applied to an empty sequence and the call raises \<open>ValueError\<close>.
\<close>

theorem create_chunks_raises_ValueError:
  "create_chunks TextProcessingAgent_default (replicate 2001 (CHR ''a'')) = Some (Inl ValueError)"
  by (rule create_chunks_no_marker) (simp_all add: TextProcessingAgent_default_def)







text \<open>
  With \<open>chunk_size = overlap = 1\<close> the text \<open>a\<close> is one window that ends at 1, and the next
  \<open>start\<close> is 0 again: no run of the loop from that state returns.
\<close>

lemma chunk_loop_stalls_aux:
  assumes "chunk_loop self t start chunks = Some r"
  shows "\<not> (self = \<lparr>chunk_size = 1, overlap = 1\<rparr> \<and> t = ''a'' \<and> start = 0)"
proof (rule chunk_loop.raw_induct
    [where P = "\<lambda>self t start chunks r. \<not> (self = \<lparr>chunk_size = 1, overlap = 1\<rparr> \<and> t = ''a'' \<and> start = 0)",
      OF _ assms])
  fix f :: "TextProcessingAgent \<Rightarrow> string \<Rightarrow> int \<Rightarrow> string list \<Rightarrow> (py_error + string list) option"
  fix self t start chunks r
  assume IH: "\<And>self t start chunks r. f self t start chunks = Some r \<Longrightarrow>
     \<not> (self = \<lparr>chunk_size = 1, overlap = 1\<rparr> \<and> t = ''a'' \<and> start = 0)"
  assume step: "(if start < int (length t)
      then case window_end self t start of Inl e \<Rightarrow> Some (Inl e)
           | Inr end \<Rightarrow>
               let chunk = strip (py_slice t start end)
               in f self t (end - overlap self) (if chunk \<noteq> [] then chunks @ [chunk] else chunks)
      else Some (Inr chunks)) = Some r"
  show "\<not> (self = \<lparr>chunk_size = 1, overlap = 1\<rparr> \<and> t = ''a'' \<and> start = 0)"
  proof
    assume a: "self = \<lparr>chunk_size = 1, overlap = 1\<rparr> \<and> t = ''a'' \<and> start = 0"
    then have we: "window_end self t start = Inr 1"
      by (simp add: window_end_def)
    have st: "strip (py_slice ''a'' 0 1) = ''a''"
      by code_simp
    from step a we st have "f self t 0 (chunks @ [''a'']) = Some r"
      by (simp add: Let_def)
    from IH [OF this] a show False by simp
  qed
qed


text \<open>
  Claim C3 says that \<open>create_chunks\<close> fails fast with a configuration error when
  \<open>overlap >= chunk_size\<close>. The loop has no such guard: on the text \<open>a\<close> with
  \<open>chunk_size = overlap = 1\<close> it neither raises nor returns.
\<close>

theorem create_chunks_overlap_eq_size_never_returns:
  "create_chunks \<lparr>chunk_size = 1, overlap = 1\<rparr> ''a'' = None"
  using chunk_loop_stalls_aux [of "\<lparr>chunk_size = 1, overlap = 1\<rparr>" "''a''" 0 "[]"]
  by (cases "chunk_loop \<lparr>chunk_size = 1, overlap = 1\<rparr> ''a'' 0 []") (auto simp: create_chunks_def)


text \<open>
  The loop can stall with an overlap smaller than the chunk size as well: when the last
  marker of a window lies within \<open>overlap\<close> characters of the window's start, the next
  window starts where this one did.
\<close>

lemma chunk_loop_stalls_small_overlap_aux:
  assumes "chunk_loop self t start chunks = Some r"
  shows "\<not> (self = \<lparr>chunk_size = 8, overlap = 2\<rparr> \<and> t = ''One.  Two. Three'' \<and> (start = 0 \<or> start = 2))"
proof (rule chunk_loop.raw_induct
    [where P = "\<lambda>self t start chunks r.
        \<not> (self = \<lparr>chunk_size = 8, overlap = 2\<rparr> \<and> t = ''One.  Two. Three'' \<and> (start = 0 \<or> start = 2))",
      OF _ assms])
  fix f :: "TextProcessingAgent \<Rightarrow> string \<Rightarrow> int \<Rightarrow> string list \<Rightarrow> (py_error + string list) option"
  fix self t start chunks r
  assume IH: "\<And>self t start chunks r. f self t start chunks = Some r \<Longrightarrow>
     \<not> (self = \<lparr>chunk_size = 8, overlap = 2\<rparr> \<and> t = ''One.  Two. Three'' \<and> (start = 0 \<or> start = 2))"
  assume step: "(if start < int (length t)
      then case window_end self t start of Inl e \<Rightarrow> Some (Inl e)
           | Inr end \<Rightarrow>
               let chunk = strip (py_slice t start end)
               in f self t (end - overlap self) (if chunk \<noteq> [] then chunks @ [chunk] else chunks)
      else Some (Inr chunks)) = Some r"
  show "\<not> (self = \<lparr>chunk_size = 8, overlap = 2\<rparr> \<and> t = ''One.  Two. Three'' \<and> (start = 0 \<or> start = 2))"
  proof
    assume a: "self = \<lparr>chunk_size = 8, overlap = 2\<rparr> \<and> t = ''One.  Two. Three'' \<and> (start = 0 \<or> start = 2)"
    have w0: "window_end \<lparr>chunk_size = 8, overlap = 2\<rparr> ''One.  Two. Three'' 0 = Inr 4" by code_simp
    have w2: "window_end \<lparr>chunk_size = 8, overlap = 2\<rparr> ''One.  Two. Three'' 2 = Inr 4" by code_simp
    from a w0 w2 have we: "window_end self t start = Inr 4" by auto
    from a have "start < int (length t)" by auto
    with step we a obtain chunks' where "f self t 2 chunks' = Some r"
      by (simp add: Let_def)
    from IH [OF this] a show False by simp
  qed
qed

lemma create_chunks_stalls_with_small_overlap:
  "create_chunks \<lparr>chunk_size = 8, overlap = 2\<rparr> ''One.  Two. Three'' = None"
  using chunk_loop_stalls_small_overlap_aux [of "\<lparr>chunk_size = 8, overlap = 2\<rparr>" "''One.  Two. Three''" 0 "[]"]
  by (cases "chunk_loop \<lparr>chunk_size = 8, overlap = 2\<rparr> ''One.  Two. Three'' 0 []") (auto simp: create_chunks_def)

text \<open>When every iteration makes progress, the distance to the end of the text decreases.\<close>

lemma chunk_loop_terminates:
  assumes adv: "\<forall>i\<in>{..<length t}. window_advances self t (int i)"
    and "0 \<le> start"
  shows "\<exists>r. chunk_loop self t start chunks = Some r \<and>
             ((\<forall>i\<in>{..<length t}. \<not> isl (window_end self t (int i))) \<longrightarrow> \<not> isl r)"
  using assms(2)
proof (induction "nat (int (length t) - start)" arbitrary: start chunks rule: less_induct)
  case less
  show ?case
  proof (cases "start < int (length t)")
    case False
    then show ?thesis by (subst chunk_loop.simps) simp
  next
    case True
    with less.prems have mem: "nat start \<in> {..<length t}" and s: "int (nat start) = start"
      by simp_all
    show ?thesis
    proof (cases "window_end self t start")
      case (Inl e)
      with mem s have "\<not> (\<forall>i\<in>{..<length t}. \<not> isl (window_end self t (int i)))"
        by (metis sum.disc(1))
      with True Inl show ?thesis
        by (subst chunk_loop.simps) simp
    next
      case (Inr e)
      from adv mem have "window_advances self t (int (nat start))" by (rule bspec)
      with Inr s have prog: "start < e - overlap self"
        by (simp add: window_advances_def)
      let ?chunk = "strip (py_slice t start e)"
      let ?chunks = "if ?chunk \<noteq> [] then chunks @ [?chunk] else chunks"
      have "nat (int (length t) - (e - overlap self)) < nat (int (length t) - start)"
        using prog True by linarith
      moreover have "0 \<le> e - overlap self" using prog less.prems by linarith
      ultimately have "\<exists>r. chunk_loop self t (e - overlap self) ?chunks = Some r \<and>
             ((\<forall>i\<in>{..<length t}. \<not> isl (window_end self t (int i))) \<longrightarrow> \<not> isl r)"
        by (rule less.hyps)
      moreover have "chunk_loop self t start chunks = chunk_loop self t (e - overlap self) ?chunks"
        using True Inr by (subst chunk_loop.simps) (simp add: Let_def)
      ultimately show ?thesis by simp
    qed
  qed
qed


text \<open>
  Claim C3, as amended: if at every position of the text the iteration starting there
  makes progress (\<open>end - overlap > start\<close>), then \<open>create_chunks\<close> terminates; if moreover
  no window raises, it returns normally with a list of chunks.
\<close>

theorem create_chunks_terminates_when_advancing:
  assumes "\<forall>i\<in>{..<length t}. window_advances self t (int i)"
  shows "(\<exists>r. create_chunks self t = Some r) \<and>
         ((\<forall>i\<in>{..<length t}. \<not> isl (window_end self t (int i))) \<longrightarrow>
            (\<exists>chunks. create_chunks self t = Some (Inr chunks)))"
proof -
  from chunk_loop_terminates [OF assms, of 0 "[]"]
  obtain r where r: "chunk_loop self t 0 [] = Some r"
    and n: "(\<forall>i\<in>{..<length t}. \<not> isl (window_end self t (int i))) \<longrightarrow> \<not> isl r"
    by auto
  show ?thesis
  proof (intro conjI impI)
    show "\<exists>r. create_chunks self t = Some r" using r by (simp add: create_chunks_def)
    assume "\<forall>i\<in>{..<length t}. \<not> isl (window_end self t (int i))"
    with n have "\<not> isl r" by simp
    then obtain chunks where "r = Inr chunks" by (cases r) auto
    with r show "\<exists>chunks. create_chunks self t = Some (Inr chunks)"
      by (auto simp: create_chunks_def)
  qed
qed

theorem create_chunks_terminates_when_advancing_witness:
  "(\<exists>r. create_chunks \<lparr>chunk_size = 5, overlap = 1\<rparr> ''a. b. c. d. e. f'' = Some r) \<and>
   (\<exists>chunks. create_chunks \<lparr>chunk_size = 5, overlap = 1\<rparr> ''a. b. c. d. e. f'' = Some (Inr chunks))"
proof -
  let ?t = "''a. b. c. d. e. f''"
  let ?self = "\<lparr>chunk_size = 5, overlap = 1\<rparr>"
  have h1: "\<forall>i\<in>{..<length ?t}. window_advances ?self ?t (int i)"
    unfolding atLeast_upt by code_simp
  have h2: "\<forall>i\<in>{..<length ?t}. \<not> isl (window_end ?self ?t (int i))"
    unfolding atLeast_upt by code_simp
  from create_chunks_terminates_when_advancing [OF h1] h2
  show ?thesis by blast
qed























section \<open>Properties of validation: what is left unchanged\<close>

lemma chat_completions_create_eq:
  assumes "api prompt (world client) = (outcome, w)"
  shows "chat_completions_create api prompt client =
           (outcome, client\<lparr>requests := requests client @ [(prompt, outcome)], world := w\<rparr>)"
  using assms by (simp add: chat_completions_create_def)

lemma apply_validation_feedback_frame:
  "length (apply_validation_feedback pairs feedback) = length pairs \<and>
   map question (apply_validation_feedback pairs feedback) = map question pairs \<and>
   map answer (apply_validation_feedback pairs feedback) = map answer pairs \<and>
   map metadata (apply_validation_feedback pairs feedback) = map metadata pairs"
  by (simp add: apply_validation_feedback_def)


text \<open>
  Claim C8: \<open>validate_qa_pairs\<close> returns as many pairs as it was given, in the same order,
  with the question, the answer and the metadata of each pair unchanged; it issues one
  request, and when that request fails the pairs are returned as they were given,
  confidence included.
\<close>

theorem validate_qa_pairs_frame:
  assumes "validate_qa_pairs api pairs client = (validated, client1)"
  shows "length validated = length pairs \<and>
         map question validated = map question pairs \<and>
         map answer validated = map answer pairs \<and>
         map metadata validated = map metadata pairs \<and>
         (\<exists>prompt outcome. requests client1 = requests client @ [(prompt, outcome)] \<and>
            (outcome = None \<longrightarrow> validated = pairs))"
proof -
  define prompt where "prompt = VALIDATION (join [CHR 10]
      (map (\<lambda>pair. ''Q: '' @ question pair @ ''\<newline>A: '' @ answer pair) pairs))"
  have unfold: "validate_qa_pairs api pairs client =
      (case chat_completions_create api prompt client of
         (Some feedback, c1) \<Rightarrow> (apply_validation_feedback pairs feedback, c1)
       | (None, c1) \<Rightarrow> (pairs, c1))"
    by (simp add: validate_qa_pairs_def prompt_def Let_def)
  obtain outcome w where api: "api prompt (world client) = (outcome, w)"
    by (cases "api prompt (world client)")
  define c1 where "c1 = client\<lparr>requests := requests client @ [(prompt, outcome)], world := w\<rparr>"
  have call: "chat_completions_create api prompt client = (outcome, c1)"
    unfolding c1_def using api by (rule chat_completions_create_eq)
  have reqs: "requests c1 = requests client @ [(prompt, outcome)]"
    by (simp add: c1_def)
  show ?thesis
  proof (cases outcome)
    case None
    with assms unfold call have "validated = pairs" and "client1 = c1" by simp_all
    with reqs show ?thesis by auto
  next
    case (Some feedback)
    with assms unfold call have "validated = apply_validation_feedback pairs feedback"
      and "client1 = c1" by simp_all
    with reqs Some apply_validation_feedback_frame [of pairs feedback] show ?thesis by auto
  qed
qed

theorem validate_qa_pairs_frame_witness:
  "validate_qa_pairs (\<lambda>prompt w. (None, w))
     [\<lparr>question = ''q1'', answer = ''a1'', confidence = 0.7, metadata = None\<rparr>,
      \<lparr>question = ''q2'', answer = ''a2'', confidence = 1.0, metadata = Some [(''source_type'', ''groq_llama2'')]\<rparr>]
     \<lparr>requests = [], world = ()\<rparr>
   = ([\<lparr>question = ''q1'', answer = ''a1'', confidence = 0.7, metadata = None\<rparr>,
       \<lparr>question = ''q2'', answer = ''a2'', confidence = 1.0, metadata = Some [(''source_type'', ''groq_llama2'')]\<rparr>],
      \<lparr>requests = [(VALIDATION ''Q: q1\<newline>A: a1\<newline>Q: q2\<newline>A: a2'', None)], world = ()\<rparr>)"
proof -
  let ?api = "\<lambda>prompt (w :: unit). (None :: string option, w)"
  let ?pairs = "[\<lparr>question = ''q1'', answer = ''a1'', confidence = 0.7, metadata = None\<rparr>,
      \<lparr>question = ''q2'', answer = ''a2'', confidence = 1.0, metadata = Some [(''source_type'', ''groq_llama2'')]\<rparr>]"
  let ?client = "\<lparr>requests = [], world = ()\<rparr>"
  obtain validated client1 where run: "validate_qa_pairs ?api ?pairs ?client = (validated, client1)"
    by (cases "validate_qa_pairs ?api ?pairs ?client")
  have reqs: "requests (snd (validate_qa_pairs ?api ?pairs ?client)) =
      [(VALIDATION ''Q: q1\<newline>A: a1\<newline>Q: q2\<newline>A: a2'', None)]"
    by (simp add: validate_qa_pairs_def chat_completions_create_def)
  have w: "world (snd (validate_qa_pairs ?api ?pairs ?client)) = ()" by simp
  from validate_qa_pairs_frame [OF run] reqs run have "validated = ?pairs" by auto
  moreover from reqs run w have "client1 = \<lparr>requests = [(VALIDATION ''Q: q1\<newline>A: a1\<newline>Q: q2\<newline>A: a2'', None)], world = ()\<rparr>"
    by (cases client1) simp
  ultimately show ?thesis using run by simp
qed

section \<open>Properties of the context manager\<close>








section \<open>Properties of the generator\<close>

text \<open>
  The parser never raises: a line is split at its first colon only after it was found to
  start with a prefix that ends in a colon.
\<close>

lemma split_colon_1_Inr:
  assumes "CHR '':'' \<in> set s"
  shows "\<exists>rest. split_colon_1 s = Inr rest"
proof -
  from assms have "dropWhile (\<lambda>c. c \<noteq> CHR '':'') s \<noteq> []"
    by (auto simp: dropWhile_eq_Nil_conv)
  then show ?thesis by (cases "dropWhile (\<lambda>c. c \<noteq> CHR '':'') s") (simp_all add: split_colon_1_def)
qed

lemma startswith_colon:
  assumes "startswith s ps" and "\<forall>p\<in>set ps. CHR '':'' \<in> set p"
  shows "CHR '':'' \<in> set s"
proof -
  from assms(1) obtain p where "p \<in> set ps" "prefix p s"
    by (auto simp: startswith_def list_ex_iff)
  with assms(2) set_mono_prefix [of p s] show ?thesis by auto
qed

lemma parse_line_Inr: "\<exists>st1. parse_line line st = Inr st1"
proof -
  let ?qs = "[''Q1:'', ''Q2:'', ''Q3:'', ''Q:'', ''Question:'']"
  let ?as = "[''A1:'', ''A2:'', ''A3:'', ''A:'', ''Answer:'']"
  have cq: "\<forall>p\<in>set ?qs. CHR '':'' \<in> set p" by simp
  have ca: "\<forall>p\<in>set ?as. CHR '':'' \<in> set p" by simp
  have q: "startswith line ?qs \<Longrightarrow> \<exists>rest. split_colon_1 line = Inr rest"
    using cq by (intro split_colon_1_Inr startswith_colon [of line ?qs])
  have a: "startswith line ?as \<Longrightarrow> \<exists>rest. split_colon_1 line = Inr rest"
    using ca by (intro split_colon_1_Inr startswith_colon [of line ?as])
  show ?thesis
  proof (cases "line = []")
    case True
    then show ?thesis by (simp add: parse_line_def)
  next
    case False
    show ?thesis
    proof (cases "startswith line ?qs")
      case True
      with q obtain rest where "split_colon_1 line = Inr rest" by blast
      with True False show ?thesis by (simp add: parse_line_def Let_def)
    next
      case nq: False
      show ?thesis
      proof (cases "startswith line ?as")
        case True
        with a obtain rest where "split_colon_1 line = Inr rest" by blast
        with True nq False show ?thesis
          by (simp add: parse_line_def Let_def split: option.splits)
      next
        case False
        with nq \<open>line \<noteq> []\<close> show ?thesis by (simp add: parse_line_def)
      qed
    qed
  qed
qed

lemma parse_lines_Inr: "\<exists>st1. parse_lines lines st = Inr st1"
proof (induction lines arbitrary: st)
  case Nil
  then show ?case by simp
next
  case (Cons line lines)
  from parse_line_Inr obtain st1 where "parse_line line st = Inr st1" by blast
  with Cons.IH [of st1] show ?case by simp
qed

lemma parse_qa_response_Inr: "\<exists>pairs. parse_qa_response response_text = Inr pairs"
proof -
  let ?lines = "map strip (filter (\<lambda>line. strip line \<noteq> []) (split (strip response_text) (CHR 10)))"
  from parse_lines_Inr obtain st where
    "parse_lines ?lines \<lparr>qa_pairs = [], current_question = None, current_answer = None\<rparr> = Inr st"
    by blast
  then show ?thesis by (simp add: parse_qa_response_def Let_def)
qed

lemma prompts_differ: "QA_GENERATION chunk ci \<noteq> ERROR_RECOVERY chunk ci"
  by (simp add: QA_GENERATION_def ERROR_RECOVERY_def)

text \<open>
  The attempts from number \<open>a\<close> on: every request but the last fails, the first carries the
  current prompt and the others the recovery prompt.
\<close>

lemma generate_attempts_requests:
  assumes "generate_attempts api chunk ci retry_count prompt [a..<Suc m] client = (result, client1)"
    and "int m = retry_count" and "a \<le> m"
  shows "\<exists>new. requests client1 = requests client @ new \<and>
           1 \<le> length new \<and> length new \<le> Suc m - a \<and>
           map fst new = prompt # replicate (length new - 1) (ERROR_RECOVERY chunk ci) \<and>
           (\<forall>r\<in>set (butlast new). snd r = None) \<and>
           (case snd (last new) of
              None \<Rightarrow> length new = Suc m - a \<and> result = Some []
            | Some content \<Rightarrow> \<exists>pairs. parse_qa_response content = Inr pairs \<and> result = Some pairs)"
  using assms
proof (induction "m - a" arbitrary: a prompt client)
  case 0
  then have am: "a = m" by simp
  obtain outcome w where api: "api prompt (world client) = (outcome, w)"
    by (cases "api prompt (world client)")
  define c1 where "c1 = client\<lparr>requests := requests client @ [(prompt, outcome)], world := w\<rparr>"
  have call: "chat_completions_create api prompt client = (outcome, c1)"
    unfolding c1_def using api by (rule chat_completions_create_eq)
  have reqs: "requests c1 = requests client @ [(prompt, outcome)]" by (simp add: c1_def)
  have upt: "[a..<Suc m] = [a]" using am by simp
  show ?case
  proof (cases outcome)
    case None
    with "0.prems"(1,2) call am have "result = Some []" "client1 = c1"
      unfolding upt by simp_all
    with reqs None am show ?thesis by (intro exI [of _ "[(prompt, outcome)]"]) simp
  next
    case (Some content)
    obtain pairs where p: "parse_qa_response content = Inr pairs"
      using parse_qa_response_Inr by blast
    with Some "0.prems"(1) call have "result = Some pairs" "client1 = c1"
      unfolding upt by simp_all
    with reqs Some p am show ?thesis by (intro exI [of _ "[(prompt, outcome)]"]) simp
  qed
next
  case (Suc d)
  then have lt: "a < m" by simp
  obtain outcome w where api: "api prompt (world client) = (outcome, w)"
    by (cases "api prompt (world client)")
  define c1 where "c1 = client\<lparr>requests := requests client @ [(prompt, outcome)], world := w\<rparr>"
  have call: "chat_completions_create api prompt client = (outcome, c1)"
    unfolding c1_def using api by (rule chat_completions_create_eq)
  have reqs: "requests c1 = requests client @ [(prompt, outcome)]" by (simp add: c1_def)
  have upt: "[a..<Suc m] = a # [Suc a..<Suc m]" using lt by (simp add: upt_conv_Cons)
  show ?case
  proof (cases outcome)
    case (Some content)
    obtain pairs where p: "parse_qa_response content = Inr pairs"
      using parse_qa_response_Inr by blast
    with Some Suc.prems(1) call have "result = Some pairs" "client1 = c1"
      unfolding upt by simp_all
    with reqs Some p lt show ?thesis by (intro exI [of _ "[(prompt, outcome)]"]) simp
  next
    case None
    have "int a \<noteq> retry_count" using lt Suc.prems(2) by simp
    with None Suc.prems(1) call
    have rec: "generate_attempts api chunk ci retry_count (ERROR_RECOVERY chunk ci) [Suc a..<Suc m] c1 =
                 (result, client1)"
      unfolding upt by simp
    have d: "d = m - Suc a" using Suc.hyps(2) by simp
    from Suc.hyps(1) [OF d rec Suc.prems(2)] lt obtain new where
      n1: "requests client1 = requests c1 @ new" and
      n2: "1 \<le> length new" and n3: "length new \<le> Suc m - Suc a" and
      n4: "map fst new = ERROR_RECOVERY chunk ci # replicate (length new - 1) (ERROR_RECOVERY chunk ci)" and
      n5: "\<forall>r\<in>set (butlast new). snd r = None" and
      n6: "case snd (last new) of
              None \<Rightarrow> length new = Suc m - Suc a \<and> result = Some []
            | Some content \<Rightarrow> \<exists>pairs. parse_qa_response content = Inr pairs \<and> result = Some pairs"
      by auto
    from n2 have ne: "new \<noteq> []" by auto
    let ?new = "(prompt, outcome) # new"
    have "requests client1 = requests client @ ?new" using n1 reqs by simp
    moreover have "1 \<le> length ?new" by simp
    moreover have "length ?new \<le> Suc m - a" using n3 lt by simp
    moreover have "map fst ?new = prompt # replicate (length ?new - 1) (ERROR_RECOVERY chunk ci)"
      using n4 n2 by (cases "length new") simp_all
    moreover have "\<forall>r\<in>set (butlast ?new). snd r = None" using n5 ne None by simp
    moreover have "case snd (last ?new) of
              None \<Rightarrow> length ?new = Suc m - a \<and> result = Some []
            | Some content \<Rightarrow> \<exists>pairs. parse_qa_response content = Inr pairs \<and> result = Some pairs"
      using n6 ne lt by (cases "snd (last new)") (simp_all add: Suc_diff_Suc)
    ultimately show ?thesis by (intro exI [of _ ?new] conjI)
  qed
qed


text \<open>
  Claim C7 says that \<open>generate_qa_pairs\<close> returns the empty sequence if and only if all
  attempts fail. A response in which the parser finds no pair gives the empty sequence
  after one successful request.
\<close>

theorem generate_qa_pairs_empty_after_success:
  "generate_qa_pairs (\<lambda>prompt w. (Some ''I cannot help with that.'', w)) ''Some text.'' None 2
     \<lparr>requests = [], world = ()\<rparr> =
   (Some [], \<lparr>requests = [(QA_GENERATION ''Some text.'' [], Some ''I cannot help with that.'')],
              world = ()\<rparr>)"
  by code_simp


text \<open>
  Claim C7, as amended: for \<open>retry_count >= 0\<close> the call returns a list and raises
  nothing; it issues between one and \<open>retry_count + 1\<close> requests, the first with the full
  prompt and every later one with the recovery prompt, which is a different text; every
  request but the last fails; if the last one fails too, all \<open>retry_count + 1\<close> attempts
  were made and the result is empty, otherwise the result is what the parser finds in the
  response (which may be empty).
\<close>

theorem generate_qa_pairs_retries:
  assumes "0 \<le> retry_count"
    and "generate_qa_pairs api chunk context retry_count client = (result, client1)"
  shows "\<exists>new. requests client1 = requests client @ new \<and>
           1 \<le> length new \<and> int (length new) \<le> retry_count + 1 \<and>
           map fst new = QA_GENERATION chunk (context_instruction_of context) #
             replicate (length new - 1) (ERROR_RECOVERY chunk (context_instruction_of context)) \<and>
           QA_GENERATION chunk (context_instruction_of context) \<noteq>
             ERROR_RECOVERY chunk (context_instruction_of context) \<and>
           (\<forall>r\<in>set (butlast new). snd r = None) \<and>
           (case snd (last new) of
              None \<Rightarrow> int (length new) = retry_count + 1 \<and> result = Some []
            | Some content \<Rightarrow> \<exists>pairs. parse_qa_response content = Inr pairs \<and> result = Some pairs)"
proof -
  let ?ci = "context_instruction_of context"
  let ?m = "nat retry_count"
  have n: "nat (retry_count + 1) = Suc ?m" using assms(1) by simp
  from assms(2) have run: "generate_attempts api chunk ?ci retry_count (QA_GENERATION chunk ?ci) [0..<Suc ?m] client =
      (result, client1)"
    by (simp only: generate_qa_pairs_def Let_def n)
  have m: "int ?m = retry_count" using assms(1) by simp
  from generate_attempts_requests [OF run m] obtain new where
    n1: "requests client1 = requests client @ new" and
    n2: "1 \<le> length new" and n3: "length new \<le> Suc ?m - 0" and
    n4: "map fst new = QA_GENERATION chunk ?ci # replicate (length new - 1) (ERROR_RECOVERY chunk ?ci)" and
    n5: "\<forall>r\<in>set (butlast new). snd r = None" and
    n6: "case snd (last new) of
              None \<Rightarrow> length new = Suc ?m - 0 \<and> result = Some []
            | Some content \<Rightarrow> \<exists>pairs. parse_qa_response content = Inr pairs \<and> result = Some pairs"
    by auto
  have "int (length new) \<le> retry_count + 1" using n3 assms(1) by simp
  moreover have "case snd (last new) of
              None \<Rightarrow> int (length new) = retry_count + 1 \<and> result = Some []
            | Some content \<Rightarrow> \<exists>pairs. parse_qa_response content = Inr pairs \<and> result = Some pairs"
    using n6 assms(1) by (cases "snd (last new)") auto
  moreover note n1 n2 n4 n5 prompts_differ [of chunk ?ci]
  ultimately show ?thesis by (intro exI [of _ new] conjI)
qed

theorem generate_qa_pairs_retries_witness:
  "fst (generate_qa_pairs
          (\<lambda>prompt n. (if n = 0 then None else Some ''Q1: What?\<newline>A1: That.'', Suc n))
          ''Some text.'' (Some ''Earlier.'') 2 \<lparr>requests = [], world = 0 :: nat\<rparr>) =
     Some [\<lparr>question = ''What?'', answer = ''That.'', confidence = 1,
            metadata = Some [(''source_type'', ''groq_llama2'')]\<rparr>] \<and>
   requests (snd (generate_qa_pairs
          (\<lambda>prompt n. (if n = 0 then None else Some ''Q1: What?\<newline>A1: That.'', Suc n))
          ''Some text.'' (Some ''Earlier.'') 2 \<lparr>requests = [], world = 0 :: nat\<rparr>)) =
     [(QA_GENERATION ''Some text.'' (CONTEXT_INSTRUCTION ''Earlier.''), None),
      (ERROR_RECOVERY ''Some text.'' (CONTEXT_INSTRUCTION ''Earlier.''), Some ''Q1: What?\<newline>A1: That.'')]"
proof -
  let ?api = "\<lambda>(prompt :: string) n. (if n = 0 then None else Some ''Q1: What?\<newline>A1: That.'', Suc n)"
  let ?run = "generate_qa_pairs ?api ''Some text.'' (Some ''Earlier.'') 2 \<lparr>requests = [], world = 0 :: nat\<rparr>"
  obtain result client1 where run: "?run = (result, client1)" by (cases ?run)
  have h: "(0 :: int) \<le> 2" by simp
  have outs: "map snd (requests (snd ?run)) = [None, Some ''Q1: What?\<newline>A1: That.'']"
    by code_simp
  have res: "fst ?run = Some [\<lparr>question = ''What?'', answer = ''That.'', confidence = 1,
            metadata = Some [(''source_type'', ''groq_llama2'')]\<rparr>]"
    by code_simp
  have ci: "context_instruction_of (Some ''Earlier.'') = CONTEXT_INSTRUCTION ''Earlier.''"
    by (simp add: context_instruction_of_def)
  from generate_qa_pairs_retries [OF h run] obtain new where
    n1: "requests client1 = [] @ new" and
    n4: "map fst new = QA_GENERATION ''Some text.'' (context_instruction_of (Some ''Earlier.'')) #
             replicate (length new - 1) (ERROR_RECOVERY ''Some text.'' (context_instruction_of (Some ''Earlier.'')))"
    by auto
  from outs run n1 have sn: "map snd new = [None, Some ''Q1: What?\<newline>A1: That.'']" by simp
  then have "length new = 2" by (metis length_map length_Cons list.size(3) numeral_2_eq_2)
  with n4 have fs: "map fst new = [QA_GENERATION ''Some text.'' (CONTEXT_INSTRUCTION ''Earlier.''),
      ERROR_RECOVERY ''Some text.'' (CONTEXT_INSTRUCTION ''Earlier.'')]"
    by (simp only: ci) simp
  have "new = zip (map fst new) (map snd new)" by (simp add: zip_map_fst_snd)
  with fs sn have "new = [(QA_GENERATION ''Some text.'' (CONTEXT_INSTRUCTION ''Earlier.''), None),
      (ERROR_RECOVERY ''Some text.'' (CONTEXT_INSTRUCTION ''Earlier.''), Some ''Q1: What?\<newline>A1: That.'')]"
    by simp
  with n1 run res show ?thesis by simp
qed

section \<open>Properties of the chunk loop of \<open>process_document\<close>\<close>

text \<open>
  The body of the \<open>try\<close> writes no log record and leaves \<open>failed_chunks\<close> alone; one
  iteration writes its \<open>Processing\<close> record and, when an exception escaped the body, one
  error record with one increment of \<open>failed_chunks\<close>.
\<close>

lemma try_chunk_keeps:
  assumes "try_chunk self chunk st = (r, st1)"
  shows "failed_chunks (stats st1) = failed_chunks (stats st) \<and> logger st1 = logger st"
  using assms
  by (auto simp: try_chunk_def update_statistics_def Let_def split: prod.splits sum.splits)

lemma process_chunk_records:
  "\<exists>records. logger (process_chunk self n (i, chunk) st) = logger st @ Processing_chunk i n # records \<and>
      [r\<leftarrow>records. is_processing r] = [] \<and>
      failed_chunks (stats (process_chunk self n (i, chunk) st)) =
        failed_chunks (stats st) + length records"
proof -
  let ?st0 = "st\<lparr>logger := logger st @ [Processing_chunk i n]\<rparr>"
  obtain r st1 where t: "try_chunk self chunk ?st0 = (r, st1)"
    by (cases "try_chunk self chunk ?st0")
  from try_chunk_keeps [OF t] have k: "failed_chunks (stats st1) = failed_chunks (stats st)"
    "logger st1 = logger st @ [Processing_chunk i n]" by simp_all
  show ?thesis
  proof (cases r)
    case None
    with t k show ?thesis
      by (intro exI [of _ "[]"]) (simp add: process_chunk_def)
  next
    case (Some e)
    with t k show ?thesis
      by (intro exI [of _ "[Error_processing_chunk i e]"]) (simp add: process_chunk_def is_processing_def)
  qed
qed

lemma process_chunks_records:
  "\<exists>records. logger (process_chunks self n ics st) = logger st @ records \<and>
      [r\<leftarrow>records. is_processing r] = map (\<lambda>(i, chunk). Processing_chunk i n) ics \<and>
      failed_chunks (stats (process_chunks self n ics st)) =
        failed_chunks (stats st) + length [r\<leftarrow>records. \<not> is_processing r]"
proof (induction ics arbitrary: st)
  case Nil
  then show ?case by (simp add: process_chunks_def)
next
  case (Cons ic ics)
  obtain i chunk where ic: "ic = (i, chunk)" by (cases ic)
  let ?st1 = "process_chunk self n (i, chunk) st"
  from process_chunk_records [of self n i chunk st] obtain rs where
    l1: "logger ?st1 = logger st @ Processing_chunk i n # rs" and
    p1: "[r\<leftarrow>rs. is_processing r] = []" and
    f1: "failed_chunks (stats ?st1) = failed_chunks (stats st) + length rs" by blast
  from Cons.IH [of ?st1] obtain records where
    l2: "logger (process_chunks self n ics ?st1) = logger ?st1 @ records" and
    p2: "[r\<leftarrow>records. is_processing r] = map (\<lambda>(i, chunk). Processing_chunk i n) ics" and
    f2: "failed_chunks (stats (process_chunks self n ics ?st1)) =
        failed_chunks (stats ?st1) + length [r\<leftarrow>records. \<not> is_processing r]" by blast
  have step: "process_chunks self n (ic # ics) st = process_chunks self n ics ?st1"
    by (simp add: process_chunks_def ic)
  from p1 have np: "[r\<leftarrow>rs. \<not> is_processing r] = rs"
    by (simp add: filter_empty_conv)
  show ?case
    unfolding step
  proof (intro exI [of _ "Processing_chunk i n # rs @ records"] conjI)
    show "logger (process_chunks self n ics ?st1) = logger st @ Processing_chunk i n # rs @ records"
      using l1 l2 by simp
    show "[r\<leftarrow>Processing_chunk i n # rs @ records. is_processing r] =
          map (\<lambda>(i, chunk). Processing_chunk i n) (ic # ics)"
      using p1 p2 by (simp add: ic is_processing_def)
    show "failed_chunks (stats (process_chunks self n ics ?st1)) =
          failed_chunks (stats st) + length [r\<leftarrow>Processing_chunk i n # rs @ records. \<not> is_processing r]"
      using f1 f2 np by (simp add: is_processing_def)
  qed
qed


text \<open>
  Claim C10: if an exception escapes the body of the \<open>try\<close> for one chunk, whatever the
  agents do, \<open>failed_chunks\<close> grows by exactly one in that iteration and the loop goes on
  with the remaining chunks; over the whole run every chunk gets its \<open>Processing\<close> record,
  in order, and \<open>failed_chunks\<close> grows by the number of error records.
\<close>

theorem failed_chunk_is_counted_and_skipped:
  assumes "before = process_chunks self n pre st"
    and "try_chunk self chunk (before\<lparr>logger := logger before @ [Processing_chunk i n]\<rparr>) = (Some e, st1)"
  shows "failed_chunks (stats (process_chunk self n (i, chunk) before)) = failed_chunks (stats before) + 1 \<and>
         process_chunks self n (pre @ (i, chunk) # post) st =
           process_chunks self n post (process_chunk self n (i, chunk) before) \<and>
         (\<exists>records.
            logger (process_chunks self n (pre @ (i, chunk) # post) st) = logger st @ records \<and>
            [r\<leftarrow>records. is_processing r] =
              map (\<lambda>(j, c). Processing_chunk j n) (pre @ (i, chunk) # post) \<and>
            failed_chunks (stats (process_chunks self n (pre @ (i, chunk) # post) st)) =
              failed_chunks (stats st) + length [r\<leftarrow>records. \<not> is_processing r])"
proof (intro conjI)
  from try_chunk_keeps [OF assms(2)]
  have "failed_chunks (stats st1) = failed_chunks (stats before)" by simp
  with assms(2) show "failed_chunks (stats (process_chunk self n (i, chunk) before)) =
      failed_chunks (stats before) + 1"
    by (simp add: process_chunk_def)
  show "process_chunks self n (pre @ (i, chunk) # post) st =
           process_chunks self n post (process_chunk self n (i, chunk) before)"
    by (simp add: process_chunks_def assms(1))
  show "\<exists>records.
            logger (process_chunks self n (pre @ (i, chunk) # post) st) = logger st @ records \<and>
            [r\<leftarrow>records. is_processing r] =
              map (\<lambda>(j, c). Processing_chunk j n) (pre @ (i, chunk) # post) \<and>
            failed_chunks (stats (process_chunks self n (pre @ (i, chunk) # post) st)) =
              failed_chunks (stats st) + length [r\<leftarrow>records. \<not> is_processing r]"
    by (rule process_chunks_records)
qed

theorem failed_chunk_is_counted_and_skipped_witness:
  "failed_chunks (stats (process_chunk
      \<lparr>text_processor = TextProcessingAgent_default,
       qa_generator = (\<lambda>chunk c w. (if chunk = ''bad'' then Inl Exception else Inr [new_QAPair ''q'' ''a'' []], w)),
       validator = (\<lambda>pairs w. (Inr pairs, w)),
       context_manager = (\<lambda>chunk w. (Inr chunk, w))\<rparr> 3 (2, ''bad'')
      (process_chunks
        \<lparr>text_processor = TextProcessingAgent_default,
         qa_generator = (\<lambda>chunk c w. (if chunk = ''bad'' then Inl Exception else Inr [new_QAPair ''q'' ''a'' []], w)),
         validator = (\<lambda>pairs w. (Inr pairs, w)),
         context_manager = (\<lambda>chunk w. (Inr chunk, w))\<rparr> 3 [(1, ''one'')]
        \<lparr>stats = \<lparr>total_chunks = 3, total_qa_pairs = 0, failed_chunks = 0,
                  validation_stats = \<lparr>high_confidence = 0, low_confidence = 0\<rparr>\<rparr>,
         logger = [], agents = (), all_qa_pairs = [], current_context = None, saved = None\<rparr>))) = 1 \<and>
   logger (process_chunks
      \<lparr>text_processor = TextProcessingAgent_default,
       qa_generator = (\<lambda>chunk c w. (if chunk = ''bad'' then Inl Exception else Inr [new_QAPair ''q'' ''a'' []], w)),
       validator = (\<lambda>pairs w. (Inr pairs, w)),
       context_manager = (\<lambda>chunk w. (Inr chunk, w))\<rparr> 3 [(1, ''one''), (2, ''bad''), (3, ''three'')]
      \<lparr>stats = \<lparr>total_chunks = 3, total_qa_pairs = 0, failed_chunks = 0,
                validation_stats = \<lparr>high_confidence = 0, low_confidence = 0\<rparr>\<rparr>,
       logger = [], agents = (), all_qa_pairs = [], current_context = None, saved = None\<rparr>) =
     [Processing_chunk 1 3, Processing_chunk 2 3, Error_processing_chunk 2 Exception, Processing_chunk 3 3]"
proof -
  let ?self = "\<lparr>text_processor = TextProcessingAgent_default,
       qa_generator = (\<lambda>chunk (c :: string option) (w :: unit).
          (if chunk = ''bad'' then Inl Exception else Inr [new_QAPair ''q'' ''a'' []], w)),
       validator = (\<lambda>pairs w. (Inr pairs, w)),
       context_manager = (\<lambda>chunk w. (Inr chunk, w))\<rparr>"
  let ?st = "\<lparr>stats = \<lparr>total_chunks = 3, total_qa_pairs = 0, failed_chunks = 0,
                validation_stats = \<lparr>high_confidence = 0, low_confidence = 0\<rparr>\<rparr>,
       logger = [], agents = (), all_qa_pairs = [], current_context = None, saved = None\<rparr>"
  let ?before = "process_chunks ?self 3 [(1, ''one'')] ?st"
  let ?body = "try_chunk ?self ''bad'' (?before\<lparr>logger := logger ?before @ [Processing_chunk 2 3]\<rparr>)"
  have "fst ?body = Some Exception" by code_simp
  then have h2: "?body = (Some Exception, snd ?body)" by (cases ?body) simp
  have f0: "failed_chunks (stats ?before) = 0" by code_simp
  have lg: "logger (process_chunks ?self 3 [(1, ''one''), (2, ''bad''), (3, ''three'')] ?st) =
     [Processing_chunk 1 3, Processing_chunk 2 3, Error_processing_chunk 2 Exception, Processing_chunk 3 3]"
    by code_simp
  from failed_chunk_is_counted_and_skipped [OF refl h2, of "[]"] f0 lg
  show ?thesis by simp
qed

section \<open>Properties of \<open>process_document\<close>: the sizes used for chunking\<close>

text \<open>
  \<open>process_document\<close> never reads its \<open>chunk_size\<close> and \<open>overlap\<close> arguments, and the text
  processor built by the constructor has the sizes 2000 and 200.
\<close>

lemma process_document_sizes_unused:
  "process_document self extracted chunk_size_arg overlap_arg st =
   process_document self extracted chunk_size_arg' overlap_arg' st"
  by (simp add: process_document_def)

lemma new_DatasetGenerator_text_processor:
  "text_processor (new_DatasetGenerator api) = \<lparr>chunk_size = 2000, overlap = 200\<rparr>"
  by (simp add: new_DatasetGenerator_def TextProcessingAgent_default_def)


text \<open>
  Claim C4 says that the text is chunked with the \<open>chunk_size\<close> and \<open>overlap\<close> given to
  \<open>process_document\<close>. For a text of 600 characters and the arguments 500 and 50 the run
  reports one chunk, where chunking with 500 and 50 gives two. (The backend of this run
  fails on every request; the chunks do not depend on it.)
\<close>

theorem process_document_ignores_chunk_size_and_overlap:
  "map_option (total_chunks \<circ> stats \<circ> snd)
     (process_document (new_DatasetGenerator (\<lambda>prompt w. (None, w)))
        (Inr (concat (replicate 150 ''ab. ''))) 500 50 (new_run_state ())) = Some 1 \<and>
   map_option (map_sum id length)
     (create_chunks \<lparr>chunk_size = 500, overlap = 50\<rparr> (concat (replicate 150 ''ab. ''))) = Some (Inr 2)"
  by code_simp

end
